theory Spec2Isabelle
  imports Main
begin

section \<open>The XO game engine: data model\<close>

text \<open>
  The embedded source is \<^verbatim>\<open>game/core/game_xo.py\<close> (class \<^verbatim>\<open>Game\<close>) together with the
  type aliases of \<^verbatim>\<open>game/core/table/annotations.py\<close>. Python objects that are mutated
  through references (the Table, the GameState and the Player objects) are fields of one
  explicit state, the record \<open>game\<close>; every method that mutates takes the state and
  returns the new one. A method that may raise returns \<open>(error + value) \<times> game\<close>: the
  outcome of the call together with the state the objects are in when the call ends,
  whether it returned or raised.
\<close>

subsection \<open>annotations.py\<close>

type_synonym CellIndex = "int \<times> int"
  \<comment> \<open>\<^verbatim>\<open>CellIndex = tuple[int, int]\<close>: (index_row, index_column)\<close>

type_synonym CombType = "CellIndex list"
  \<comment> \<open>\<^verbatim>\<open>CombType = tuple[CellIndex, ...]\<close>\<close>

type_synonym CombsType = "CombType list"
  \<comment> \<open>\<^verbatim>\<open>CombsType = tuple[CombType, ...]\<close>\<close>

subsection \<open>Collaborators of Game\<close>

text \<open>
  Modelled from the spec: the classes Symbol, Cell, Player, TableParam, Table, ResultCode
  and GameState and the exception classes are imported by \<^verbatim>\<open>game_xo.py\<close> from modules
  that are not among the sources. A symbol is a mark, a cell holds a symbol or is empty
  (its row and column are its position in the grid), the grid is a row-major array of
  cells, a player has a symbol and a step counter.
\<close>

type_synonym Symbol = string

type_synonym Cell = "Symbol option"

type_synonym GameFieldType = "Cell list list"

datatype error = InvalidMoveError | NoMovesAvailableError | ConfigurationError

datatype ResultCode = IN_PROGRESS | WINNER | ALL_CELLS_USED

record Player =
  symbol :: Symbol
  count_steps :: int

record TableParam =
  SIZE :: int
  COMBINATION :: int

record Table =
  param :: TableParam
  game_field :: GameFieldType
  combinations :: CombsType

text \<open>A Player object is referred to by its address in the store of Player objects.\<close>

type_synonym PlayerRef = nat

record GameState =
  code :: ResultCode
  win_player :: "PlayerRef option"
  win_combination :: "CombType option"

text \<open>
  The capabilities given to the constructor of Game:
  \<^verbatim>\<open>CheckerBase.result_player(symbol, table, combinations) -> Optional[CombType]\<close> and
  \<^verbatim>\<open>AIBase.get_step(symbol, table, combinations) -> CellIndex\<close>, which the spec lets fail
  with NoMovesAvailableError. Both only read their arguments.
\<close>

type_synonym CheckerBase = "Symbol \<Rightarrow> GameFieldType \<Rightarrow> CombsType \<Rightarrow> CombType option"

type_synonym AIBase = "Symbol \<Rightarrow> GameFieldType \<Rightarrow> CombsType \<Rightarrow> error + CellIndex"

text \<open>
  The state of a game: the fields \<^verbatim>\<open>_players\<close>, \<^verbatim>\<open>_table\<close>, \<^verbatim>\<open>_game_state\<close>,
  \<^verbatim>\<open>_checker\<close> and \<^verbatim>\<open>_ai\<close> of \<^verbatim>\<open>Game\<close>, and the store of the Player objects that
  the methods receive by reference (\<open>player_objs g p\<close> is the object at address \<open>p\<close>).
  \<open>players\<close> lists the participants held by the Players object, in their order; which
  of them is the current player (current_player, set_get_next_player) is not read by
  any method embedded here and is left out.
\<close>

record game =
  players :: "PlayerRef list"
  player_objs :: "PlayerRef \<Rightarrow> Player"
  table :: Table
  game_state :: GameState
  checker :: CheckerBase
  ai :: AIBase

subsection \<open>Table and Player operations\<close>

text \<open>
  Modelled from the spec: reading a cell of the grid (the accessors of Table and Cell
  are not among the sources). The answer is None for an index outside the grid.
\<close>

definition cell_at :: "GameFieldType \<Rightarrow> int \<Rightarrow> int \<Rightarrow> Cell option" where
  "cell_at f r c =
     (if 0 \<le> r \<and> nat r < length f \<and> 0 \<le> c \<and> nat c < length (f ! nat r)
      then Some (f ! nat r ! nat c) else None)"

text \<open>
  Modelled from the spec: the precondition \<open>0 \<le> row, column < size\<close> of
  \<^verbatim>\<open>Table.set_symbol_cell\<close>.
\<close>

definition in_bounds :: "Table \<Rightarrow> int \<Rightarrow> int \<Rightarrow> bool" where
  "in_bounds t r c \<longleftrightarrow>
     0 \<le> r \<and> r < SIZE (param t) \<and> 0 \<le> c \<and> c < SIZE (param t)"

text \<open>
  Modelled from the spec: the side effect of \<^verbatim>\<open>Table.set_symbol_cell\<close>, the cell at the
  index goes from empty to the symbol.
\<close>

definition put_cell :: "GameFieldType \<Rightarrow> int \<Rightarrow> int \<Rightarrow> Symbol \<Rightarrow> GameFieldType" where
  "put_cell f r c s = f[nat r := (f ! nat r)[nat c := Some s]]"

text \<open>
  Modelled from the spec: \<^verbatim>\<open>Table.set_symbol_cell\<close> is not among the sources. It requires
  an index in bounds and an empty target cell; it fails with InvalidMoveError if either
  is violated, and then leaves the grid unchanged.
\<close>

definition set_symbol_cell ::
  "int \<Rightarrow> int \<Rightarrow> Symbol \<Rightarrow> Table \<Rightarrow> (error + unit) \<times> Table" where
  "set_symbol_cell index_row index_column s t =
     (if in_bounds t index_row index_column
         \<and> cell_at (game_field t) index_row index_column = Some None
      then (Inr (), t\<lparr>game_field := put_cell (game_field t) index_row index_column s\<rparr>)
      else (Inl InvalidMoveError, t))"

text \<open>
  Modelled from the spec: \<^verbatim>\<open>Table.count_free_cells\<close> is not among the sources. It is the
  number of cells that are still empty.
\<close>

definition count_free_cells :: "Table \<Rightarrow> int" where
  "count_free_cells t = int (length (filter (\<lambda>x. x = None) (concat (game_field t))))"

text \<open>
  Modelled from the spec: \<^verbatim>\<open>Player.add_count_step\<close> is not among the sources. It adds
  one to the step counter of the player.
\<close>

definition add_count_step :: "Player \<Rightarrow> Player" where
  "add_count_step p = p\<lparr>count_steps := count_steps p + 1\<rparr>"

section \<open>class Game\<close>

text \<open>
  The methods keep their names; \<^verbatim>\<open>_get_win_comb\<close> and \<^verbatim>\<open>_get_draw_result\<close> lose the
  leading underscore.

  \<^verbatim>\<open>set_winner\<close> and \<^verbatim>\<open>set_draw\<close> call \<^verbatim>\<open>GameState.update\<close>, which is not among the
  sources and is modelled from the spec: called with the code \<open>WINNER\<close>, the player and
  the combination it sets the three attributes; called with the code \<open>ALL_CELLS_USED\<close>
  alone it sets the code.
\<close>

definition set_winner :: "PlayerRef \<Rightarrow> CombType \<Rightarrow> game \<Rightarrow> game" where
  "set_winner player win_comb g =
     g\<lparr>game_state := (game_state g)\<lparr>code := WINNER, win_player := Some player,
                                     win_combination := Some win_comb\<rparr>\<rparr>"

definition set_draw :: "game \<Rightarrow> game" where
  "set_draw g = g\<lparr>game_state := (game_state g)\<lparr>code := ALL_CELLS_USED\<rparr>\<rparr>"

definition get_win_comb :: "PlayerRef \<Rightarrow> game \<Rightarrow> CombType option" where
  "get_win_comb player g =
     checker g (symbol (player_objs g player)) (game_field (table g))
       (combinations (table g))"

text \<open>\<^verbatim>\<open>_get_draw_result\<close> returns True or, falling off its end, None, which is falsy.\<close>

definition get_draw_result :: "game \<Rightarrow> bool" where
  "get_draw_result g = (if count_free_cells (table g) = 0 then True else False)"

text \<open>
  In \<open>result\<close>, \<^verbatim>\<open>if win_comb := ...\<close> tests the truth value of the checker's answer:
  None and the empty tuple are falsy, and both lead to the \<^verbatim>\<open>elif\<close>.
\<close>

definition step :: "int \<Rightarrow> int \<Rightarrow> PlayerRef \<Rightarrow> game \<Rightarrow> (error + unit) \<times> game" where
  "step index_row index_column player g =
     (case set_symbol_cell index_row index_column (symbol (player_objs g player)) (table g) of
        (Inl e, t) \<Rightarrow> (Inl e, g\<lparr>table := t\<rparr>)
      | (Inr u, t) \<Rightarrow>
          (Inr (), g\<lparr>table := t,
                     player_objs := (player_objs g)(player := add_count_step (player_objs g player))\<rparr>))"

definition result :: "PlayerRef \<Rightarrow> game \<Rightarrow> GameState \<times> game" where
  "result player g =
     (let g' =
        (if count_steps (player_objs g player) \<ge> COMBINATION (param (table g)) then
           (case get_win_comb player g of
              Some win_comb \<Rightarrow>
                if win_comb \<noteq> [] then set_winner player win_comb g
                else if get_draw_result g then set_draw g
                else g
            | None \<Rightarrow>
                if get_draw_result g then set_draw g
                else g)
         else g)
      in (game_state g', g'))"

definition step_result ::
  "int \<Rightarrow> int \<Rightarrow> PlayerRef \<Rightarrow> game \<Rightarrow> (error + GameState) \<times> game" where
  "step_result index_row index_column player g =
     (case step index_row index_column player g of
        (Inl e, g1) \<Rightarrow> (Inl e, g1)
      | (Inr u, g1) \<Rightarrow> (case result player g1 of (s, g2) \<Rightarrow> (Inr s, g2)))"

definition ai_get_step :: "PlayerRef \<Rightarrow> game \<Rightarrow> error + CellIndex" where
  "ai_get_step player g =
     ai g (symbol (player_objs g player)) (game_field (table g)) (combinations (table g))"

definition ai_step :: "PlayerRef \<Rightarrow> game \<Rightarrow> (error + unit) \<times> game" where
  "ai_step player g =
     (case ai_get_step player g of
        Inl e \<Rightarrow> (Inl e, g)
      | Inr (i_row, i_column) \<Rightarrow> step i_row i_column player g)"

definition ai_step_result :: "PlayerRef \<Rightarrow> game \<Rightarrow> (error + GameState) \<times> game" where
  "ai_step_result player g =
     (case ai_get_step player g of
        Inl e \<Rightarrow> (Inl e, g)
      | Inr (i_row, i_column) \<Rightarrow> step_result i_row i_column player g)"


section \<open>The variant of result without the gate\<close>

text \<open>
  The spec describes a variant of \<open>result\<close> that checks the winning combination and the
  draw condition unconditionally, without the guard
  \<^verbatim>\<open>player.count_steps >= self.table.param.COMBINATION\<close>. This definition follows those
  words; it is compared with \<open>result\<close>, which follows the source.
\<close>

definition result_unconditional :: "PlayerRef \<Rightarrow> game \<Rightarrow> GameState \<times> game" where
  "result_unconditional player g =
     (let g' =
        (case get_win_comb player g of
           Some win_comb \<Rightarrow>
             if win_comb \<noteq> [] then set_winner player win_comb g
             else if get_draw_result g then set_draw g
             else g
         | None \<Rightarrow>
             if get_draw_result g then set_draw g
             else g)
      in (game_state g', g'))"

section \<open>Default capabilities\<close>

text \<open>
  Modelled from the spec: a cell index holds a symbol in a grid (the test that the
  checker makes for every cell of a combination).
\<close>

definition holds :: "GameFieldType \<Rightarrow> Symbol \<Rightarrow> CellIndex \<Rightarrow> bool" where
  "holds f s i \<longleftrightarrow> cell_at f (fst i) (snd i) = Some (Some s)"

text \<open>
  Modelled from the spec: \<^verbatim>\<open>CheckerDefault\<close> is not among the sources. Its
  \<open>result_for_symbol\<close> (which \<^verbatim>\<open>Game._get_win_comb\<close> calls as \<^verbatim>\<open>result_player\<close>) returns
  the first combination whose every listed cell holds the symbol in the grid, and none
  if no combination is fully satisfied.
\<close>

definition CheckerDefault :: CheckerBase where
  "CheckerDefault s f cs = find (\<lambda>comb. list_all (holds f s) comb) cs"

text \<open>
  Modelled from the spec: the indices of the empty cells of a grid, in row-major order.
\<close>

definition free_cells :: "GameFieldType \<Rightarrow> CellIndex list" where
  "free_cells f =
     concat (map (\<lambda>r. map (\<lambda>c. (int r, int c))
                         (filter (\<lambda>c. f ! r ! c = None) [0..<length (f ! r)]))
                 [0..<length f])"

text \<open>
  Modelled from the spec: \<^verbatim>\<open>AIDefault\<close> is not among the sources, and the spec leaves
  its search open behind the contract of \<open>get_step\<close>: return the index of a cell that is
  empty, fail with NoMovesAvailableError if there is none. The strategy that plays the
  first empty cell in row-major order satisfies the contract; the examples use it.
\<close>

definition first_free_ai :: AIBase where
  "first_free_ai s f cs =
     (case free_cells f of [] \<Rightarrow> Inl NoMovesAvailableError | i # rest \<Rightarrow> Inr i)"

section \<open>Game histories\<close>

text \<open>
  A history of a game is a sequence of calls of the methods of \<open>Game\<close>, each made for
  one of the participants of the game; \<open>reachable g0 g\<close> says that \<open>g\<close> is the state
  after some history that starts in \<open>g0\<close>. A call that raises leaves the state it
  reached when it raised.
\<close>

inductive reachable :: "game \<Rightarrow> game \<Rightarrow> bool" for g0 :: game where
  start: "reachable g0 g0"
| call_step:
    "reachable g0 g \<Longrightarrow> player \<in> set (players g) \<Longrightarrow>
     reachable g0 (snd (step index_row index_column player g))"
| call_result:
    "reachable g0 g \<Longrightarrow> player \<in> set (players g) \<Longrightarrow>
     reachable g0 (snd (result player g))"
| call_step_result:
    "reachable g0 g \<Longrightarrow> player \<in> set (players g) \<Longrightarrow>
     reachable g0 (snd (step_result index_row index_column player g))"
| call_ai_step:
    "reachable g0 g \<Longrightarrow> player \<in> set (players g) \<Longrightarrow>
     reachable g0 (snd (ai_step player g))"
| call_ai_step_result:
    "reachable g0 g \<Longrightarrow> player \<in> set (players g) \<Longrightarrow>
     reachable g0 (snd (ai_step_result player g))"
| call_set_winner:
    "reachable g0 g \<Longrightarrow> player \<in> set (players g) \<Longrightarrow>
     reachable g0 (set_winner player win_comb g)"
| call_set_draw:
    "reachable g0 g \<Longrightarrow> reachable g0 (set_draw g)"

text \<open>
  A checker honours its contract when every combination it returns is one of the given
  combinations and every cell of it holds the symbol.
\<close>

definition checker_sound :: "CheckerBase \<Rightarrow> bool" where
  "checker_sound ch \<longleftrightarrow>
     (\<forall>s f cs w. ch s f cs = Some w \<longrightarrow> w \<in> set cs \<and> (\<forall>i \<in> set w. holds f s i))"

text \<open>
  A newly set up game: the grid is empty, every combination of the table has
  \<open>COMBINATION\<close> distinct cells (the invariant of Table), the participants have distinct
  symbols and have made no step, and the checker honours its contract.
\<close>

definition fresh :: "game \<Rightarrow> bool" where
  "fresh g \<longleftrightarrow>
     (\<forall>row \<in> set (game_field (table g)). \<forall>x \<in> set row. x = None)
     \<and> (\<forall>w \<in> set (combinations (table g)).
           distinct w \<and> int (length w) = COMBINATION (param (table g)))
     \<and> inj_on (\<lambda>p. symbol (player_objs g p)) (set (players g))
     \<and> (\<forall>p \<in> set (players g). count_steps (player_objs g p) = 0)
     \<and> checker_sound (checker g)"

text \<open>
  The cells of a grid that hold a given symbol, and the invariant of the histories of a
  newly set up game: every participant has made as many steps as there are cells that
  hold its symbol.
\<close>

definition cells_of :: "Symbol \<Rightarrow> GameFieldType \<Rightarrow> CellIndex set" where
  "cells_of s f = {i. holds f s i}"

definition consistent :: "game \<Rightarrow> bool" where
  "consistent g \<longleftrightarrow>
     (\<forall>w \<in> set (combinations (table g)).
           distinct w \<and> int (length w) = COMBINATION (param (table g)))
     \<and> inj_on (\<lambda>p. symbol (player_objs g p)) (set (players g))
     \<and> (\<forall>p \<in> set (players g).
           count_steps (player_objs g p)
             = int (card (cells_of (symbol (player_objs g p)) (game_field (table g)))))
     \<and> checker_sound (checker g)"

section \<open>Example games\<close>

text \<open>
  The standard board: size 3, run-length 3, and its eight lines (three rows, three
  columns, two diagonals).
\<close>

definition lines_3x3 :: CombsType where
  "lines_3x3 =
     [[(0, 0), (0, 1), (0, 2)], [(1, 0), (1, 1), (1, 2)], [(2, 0), (2, 1), (2, 2)],
      [(0, 0), (1, 0), (2, 0)], [(0, 1), (1, 1), (2, 1)], [(0, 2), (1, 2), (2, 2)],
      [(0, 0), (1, 1), (2, 2)], [(0, 2), (1, 1), (2, 0)]]"

definition table_3x3 :: Table where
  "table_3x3 =
     \<lparr>param = \<lparr>SIZE = 3, COMBINATION = 3\<rparr>,
      game_field = [[None, None, None], [None, None, None], [None, None, None]],
      combinations = lines_3x3\<rparr>"

text \<open>
  \<^verbatim>\<open>Game(players, table)\<close> with the default arguments of the constructor: the
  participants are the objects at the addresses \<open>0, 1, ...\<close>, with the given symbols and
  no step made.
\<close>

definition new_game :: "Symbol list \<Rightarrow> Table \<Rightarrow> game" where
  "new_game syms t =
     \<lparr>players = [0..<length syms],
      player_objs = (\<lambda>p. \<lparr>symbol = (if p < length syms then syms ! p else []), count_steps = 0\<rparr>),
      table = t,
      game_state = \<lparr>code = IN_PROGRESS, win_player = None, win_combination = None\<rparr>,
      checker = CheckerDefault,
      ai = first_free_ai\<rparr>"

text \<open>A run of moves, each made through \<open>step_result\<close> by the given player.\<close>

fun play :: "(PlayerRef \<times> int \<times> int) list \<Rightarrow> game \<Rightarrow> game" where
  "play [] g = g"
| "play ((player, index_row, index_column) # moves) g =
     play moves (snd (step_result index_row index_column player g))"

text \<open>Two players, \<open>X\<close> at address 0 and \<open>O\<close> at address 1, on the standard board.\<close>

definition game_xo :: game where
  "game_xo = new_game [''X'', ''O''] table_3x3"

text \<open>
  \<open>X\<close> completes the top row with the fifth move of the game: the state after four
  moves, the state when \<open>X\<close> has placed its third symbol and \<open>result\<close> is about to be
  called, and the state after the fifth move.
\<close>

definition game_xo_four :: game where
  "game_xo_four = play [(0, 0, 0), (1, 1, 0), (0, 0, 1), (1, 1, 1)] game_xo"

definition game_x_placed :: game where
  "game_x_placed = snd (step 0 2 0 game_xo_four)"

definition game_x_won :: game where
  "game_x_won = play [(0, 0, 0), (1, 1, 0), (0, 0, 1), (1, 1, 1), (0, 0, 2)] game_xo"

text \<open>After the win of \<open>X\<close>, \<open>O\<close> goes on and places its third symbol in the middle row.\<close>

definition game_o_went_on :: game where
  "game_o_went_on = snd (step 1 2 1 game_x_won)"

text \<open>
  A drawn game of \<open>X\<close> and \<open>O\<close>: the state after five moves, where \<open>X\<close> has made
  three steps and has no line, and the state when \<open>X\<close> has placed the ninth symbol and
  \<open>result\<close> is about to be called: the board is full and neither player has a line.
\<close>

definition game_draw_five :: game where
  "game_draw_five = play [(0, 0, 0), (1, 0, 1), (0, 0, 2), (1, 1, 1), (0, 1, 0)] game_xo"

definition game_draw_placed :: game where
  "game_draw_placed =
     snd (step 2 2 0 (play [(1, 1, 2), (0, 2, 1), (1, 2, 0)] game_draw_five))"

text \<open>
  Five players on the standard board, moving in turn; after nine moves the board is
  full, no player has a line, and no player has made three steps.
\<close>

definition game_five :: game where
  "game_five = new_game [''A'', ''B'', ''C'', ''D'', ''E''] table_3x3"

definition game_five_before_last :: game where
  "game_five_before_last =
     play [(0, 0, 0), (1, 0, 1), (2, 0, 2), (3, 1, 0), (4, 1, 1),
           (0, 1, 2), (1, 2, 0), (2, 2, 1)] game_five"

definition game_five_full :: game where
  "game_five_full = snd (step 2 2 3 game_five_before_last)"

text \<open>
  The smallest board: size 1, run-length 1, one combination. \<open>X\<close> takes the only cell
  and wins; \<open>O\<close> has made no step.
\<close>

definition table_1x1 :: Table where
  "table_1x1 =
     \<lparr>param = \<lparr>SIZE = 1, COMBINATION = 1\<rparr>, game_field = [[None]], combinations = [[(0, 0)]]\<rparr>"

definition game_single :: game where
  "game_single = new_game [''X'', ''O''] table_1x1"

definition game_single_won :: game where
  "game_single_won = play [(0, 0, 0)] game_single"

section \<open>Helper facts\<close>

subsection \<open>The methods\<close>

lemma result_snd: "snd (result player g) = g\<lparr>game_state := fst (result player g)\<rparr>"
  by (simp add: result_def Let_def set_winner_def set_draw_def split: option.split)

lemma step_succeeds:
  "in_bounds (table g) r c \<Longrightarrow> cell_at (game_field (table g)) r c = Some None \<Longrightarrow>
   step r c player g =
     (Inr (), g\<lparr>table := (table g)\<lparr>game_field :=
                     put_cell (game_field (table g)) r c (symbol (player_objs g player))\<rparr>,
                player_objs := (player_objs g)
                     (player := (player_objs g player)
                        \<lparr>count_steps := count_steps (player_objs g player) + 1\<rparr>)\<rparr>)"
  by (simp add: step_def set_symbol_cell_def add_count_step_def)

lemma players_step [simp]: "players (snd (step r c player g)) = players g"
  by (simp add: step_def set_symbol_cell_def)

lemma players_result [simp]: "players (snd (result player g)) = players g"
  by (subst result_snd) simp

lemma players_step_result [simp]: "players (snd (step_result r c player g)) = players g"
  by (simp add: step_result_def split: prod.split sum.split)
     (metis players_step players_result snd_conv)

lemma players_play [simp]: "players (play moves g) = players g"
  by (induction moves g rule: play.induct) simp_all

lemma reachable_play:
  "reachable g0 g \<Longrightarrow> \<forall>m \<in> set moves. fst m \<in> set (players g) \<Longrightarrow>
   reachable g0 (play moves g)"
proof (induction moves g rule: play.induct)
  case (1 g)
  then show ?case by simp
next
  case (2 player index_row index_column moves g)
  from "2.prems" have "reachable g0 (snd (step_result index_row index_column player g))"
    by (simp add: call_step_result)
  with 2 show ?case by simp
qed

subsection \<open>Cells of the grid\<close>

lemma cell_at_put_cell:
  assumes "cell_at f r c \<noteq> None"
  shows "cell_at (put_cell f r c s) r' c' =
           (if r' = r \<and> c' = c then Some (Some s) else cell_at f r' c')"
proof -
  from assms have b: "0 \<le> r" "nat r < length f" "0 \<le> c" "nat c < length (f ! nat r)"
    by (simp_all add: cell_at_def split: if_splits)
  show ?thesis
  proof (cases "0 \<le> r' \<and> nat r' < length f \<and> 0 \<le> c'")
    case False
    then show ?thesis using b by (auto simp: cell_at_def put_cell_def)
  next
    case True
    then have eqr: "nat r' = nat r \<longleftrightarrow> r' = r" and eqc: "nat c' = nat c \<longleftrightarrow> c' = c"
      using b by auto
    show ?thesis
    proof (cases "r' = r")
      case False
      then show ?thesis using True b eqr by (simp add: cell_at_def put_cell_def)
    next
      case r: True
      show ?thesis
      proof (cases "c' = c")
        case True
        then show ?thesis using r b by (simp add: cell_at_def put_cell_def)
      next
        case False
        then show ?thesis using r True b eqc by (simp add: cell_at_def put_cell_def)
      qed
    qed
  qed
qed

lemma finite_cells_of: "finite (cells_of s f)"
proof -
  let ?B = "(\<lambda>(r, c). (int r, int c)) ` (SIGMA r:{..<length f}. {..<length (f ! r)})"
  have "cells_of s f \<subseteq> ?B"
  proof
    fix i assume "i \<in> cells_of s f"
    then have "cell_at f (fst i) (snd i) \<noteq> None"
      by (simp add: cells_of_def holds_def)
    then have b: "0 \<le> fst i" "nat (fst i) < length f" "0 \<le> snd i"
        "nat (snd i) < length (f ! nat (fst i))"
      by (simp_all add: cell_at_def split: if_splits)
    then have "(nat (fst i), nat (snd i)) \<in> (SIGMA r:{..<length f}. {..<length (f ! r)})"
      by simp
    moreover have "i = (\<lambda>(r, c). (int r, int c)) (nat (fst i), nat (snd i))"
      using b by (simp add: prod_eq_iff)
    ultimately show "i \<in> ?B"
      by (rule image_eqI[rotated])
  qed
  then show ?thesis
    by (rule finite_subset) simp
qed

lemma cells_of_put_cell_same:
  "cell_at f r c = Some None \<Longrightarrow> cells_of s (put_cell f r c s) = insert (r, c) (cells_of s f)"
  by (auto simp: cells_of_def holds_def cell_at_put_cell)

lemma cells_of_put_cell_other:
  "cell_at f r c = Some None \<Longrightarrow> s' \<noteq> s \<Longrightarrow> cells_of s' (put_cell f r c s) = cells_of s' f"
  by (auto simp: cells_of_def holds_def cell_at_put_cell)

lemma empty_cell_not_in_cells_of:
  "cell_at f r c = Some None \<Longrightarrow> (r, c) \<notin> cells_of s f"
  by (simp add: cells_of_def holds_def)

lemma card_cells_of_put_cell_same:
  "cell_at f r c = Some None \<Longrightarrow>
   card (cells_of s (put_cell f r c s)) = Suc (card (cells_of s f))"
  by (simp add: cells_of_put_cell_same finite_cells_of empty_cell_not_in_cells_of)

lemma cells_of_empty_grid:
  assumes "\<forall>row \<in> set f. \<forall>x \<in> set row. x = None"
  shows "cells_of s f = {}"
proof -
  have "\<not> holds f s i" for i
  proof
    assume "holds f s i"
    then have b: "nat (fst i) < length f" "nat (snd i) < length (f ! nat (fst i))"
      and v: "f ! nat (fst i) ! nat (snd i) = Some s"
      by (simp_all add: holds_def cell_at_def split: if_splits)
    from b have "f ! nat (fst i) ! nat (snd i) \<in> set (f ! nat (fst i))"
      and "f ! nat (fst i) \<in> set f"
      by simp_all
    with assms have "f ! nat (fst i) ! nat (snd i) = None" by blast
    with v show False by simp
  qed
  then show ?thesis by (simp add: cells_of_def)
qed

subsection \<open>The default checker honours the contract\<close>

lemma CheckerDefault_sound: "checker_sound CheckerDefault"
  by (auto simp: checker_sound_def CheckerDefault_def find_Some_iff list_all_iff)

subsection \<open>The invariant of the histories\<close>

lemma fresh_consistent: "fresh g \<Longrightarrow> consistent g"
  by (simp add: fresh_def consistent_def cells_of_empty_grid)

lemma consistent_game_state [simp]: "consistent (g\<lparr>game_state := s\<rparr>) = consistent g"
  by (simp add: consistent_def)

lemma consistent_result: "consistent g \<Longrightarrow> consistent (snd (result player g))"
  by (subst result_snd) simp

lemma consistent_set_winner: "consistent g \<Longrightarrow> consistent (set_winner player w g)"
  by (simp add: set_winner_def)

lemma consistent_set_draw: "consistent g \<Longrightarrow> consistent (set_draw g)"
  by (simp add: set_draw_def)

lemma consistent_step:
  assumes c: "consistent g" and p: "player \<in> set (players g)"
  shows "consistent (snd (step r c player g))"
proof (cases "in_bounds (table g) r c \<and> cell_at (game_field (table g)) r c = Some None")
  case False
  then have "snd (step r c player g) = g"
    by (auto simp: step_def set_symbol_cell_def)
  with c show ?thesis by simp
next
  case True
  let ?s = "symbol (player_objs g player)"
  let ?f = "game_field (table g)"
  have inj: "inj_on (\<lambda>p. symbol (player_objs g p)) (set (players g))"
    using c by (simp add: consistent_def)
  have cnt: "\<And>q. q \<in> set (players g) \<Longrightarrow>
      count_steps (player_objs g q) = int (card (cells_of (symbol (player_objs g q)) ?f))"
    using c by (simp add: consistent_def)
  have other: "symbol (player_objs g q) \<noteq> ?s" if "q \<in> set (players g)" "q \<noteq> player" for q
    using inj p that by (auto dest: inj_onD)
  show ?thesis
    using True c other cnt[OF p]
    by (auto simp: step_def set_symbol_cell_def add_count_step_def consistent_def
          card_cells_of_put_cell_same cells_of_put_cell_other inj_on_def)
qed

lemma consistent_step_result:
  "consistent g \<Longrightarrow> player \<in> set (players g) \<Longrightarrow> consistent (snd (step_result r c player g))"
  using consistent_step[of g player r c] consistent_result[of "snd (step r c player g)" player]
  by (auto simp: step_result_def split: prod.splits sum.splits)

lemma consistent_ai_step:
  "consistent g \<Longrightarrow> player \<in> set (players g) \<Longrightarrow> consistent (snd (ai_step player g))"
  by (auto simp: ai_step_def consistent_step split: sum.splits)

lemma consistent_ai_step_result:
  "consistent g \<Longrightarrow> player \<in> set (players g) \<Longrightarrow> consistent (snd (ai_step_result player g))"
  by (auto simp: ai_step_result_def consistent_step_result split: sum.splits)

lemma reachable_consistent: "reachable g0 g \<Longrightarrow> consistent g0 \<Longrightarrow> consistent g"
  by (induction rule: reachable.induct)
     (simp_all add: consistent_step consistent_result consistent_step_result
        consistent_ai_step consistent_ai_step_result consistent_set_winner consistent_set_draw)

text \<open>
  In a consistent game a participant for whom the checker finds a combination has made
  at least \<open>COMBINATION\<close> steps.
\<close>

lemma win_needs_steps:
  assumes c: "consistent g" and p: "player \<in> set (players g)"
    and w: "get_win_comb player g = Some w"
  shows "COMBINATION (param (table g)) \<le> count_steps (player_objs g player)"
proof -
  let ?s = "symbol (player_objs g player)"
  let ?f = "game_field (table g)"
  have "checker_sound (checker g)" using c by (simp add: consistent_def)
  with w have mem: "w \<in> set (combinations (table g))" and all: "\<forall>i \<in> set w. holds ?f ?s i"
    by (auto simp: checker_sound_def get_win_comb_def)
  from c mem have d: "distinct w" and l: "int (length w) = COMBINATION (param (table g))"
    by (auto simp: consistent_def)
  from all have "set w \<subseteq> cells_of ?s ?f" by (auto simp: cells_of_def)
  then have "card (set w) \<le> card (cells_of ?s ?f)"
    by (rule card_mono[OF finite_cells_of])
  moreover have "card (set w) = length w" using d by (rule distinct_card)
  moreover have "count_steps (player_objs g player) = int (card (cells_of ?s ?f))"
    using c p by (simp add: consistent_def)
  ultimately show ?thesis using l by simp
qed

subsection \<open>The example games\<close>

lemma fresh_new_game_3x3:
  "distinct syms \<Longrightarrow> fresh (new_game syms table_3x3)"
  by (auto simp: fresh_def new_game_def table_3x3_def lines_3x3_def CheckerDefault_sound
        inj_on_def nth_eq_iff_index_eq)

lemma fresh_new_game_1x1:
  "distinct syms \<Longrightarrow> fresh (new_game syms table_1x1)"
  by (auto simp: fresh_def new_game_def table_1x1_def CheckerDefault_sound
        inj_on_def nth_eq_iff_index_eq)

lemma reachable_game_single_won: "reachable game_single game_single_won"
  unfolding game_single_won_def
  by (rule reachable_play[OF start]) (simp add: game_single_def new_game_def)

lemma reachable_game_x_won: "reachable game_xo game_x_won"
  unfolding game_x_won_def
  by (rule reachable_play[OF start]) (simp add: game_xo_def new_game_def)

lemma reachable_game_xo_four: "reachable game_xo game_xo_four"
  unfolding game_xo_four_def
  by (rule reachable_play[OF start]) (simp add: game_xo_def new_game_def)

lemma reachable_game_five_full: "reachable game_five game_five_full"
proof -
  have "reachable game_five game_five_before_last"
    unfolding game_five_before_last_def
    by (rule reachable_play[OF start]) (simp add: game_five_def new_game_def)
  then show ?thesis
    unfolding game_five_full_def
    by (rule call_step) (simp add: game_five_before_last_def game_five_def new_game_def)
qed

section \<open>The claims\<close>

subsection \<open>C1: terminal codes\<close>

text \<open>
  C1 says that once the code of the game state is WINNER or ALL_CELLS_USED, no further
  call of \<open>result\<close> changes the code, the winning player or the winning combination.
  \<open>result\<close> does not read the code, and \<open>step\<close> does not either: in the game below
  \<open>X\<close> has won with the top row, \<open>O\<close> goes on and places its third symbol in the middle
  row, and the call of \<open>result\<close> for \<open>O\<close> replaces the winner and the combination.
\<close>

theorem winner_replaced_after_terminal:
  "reachable game_xo game_o_went_on
   \<and> code (game_state game_o_went_on) = WINNER
   \<and> win_player (game_state game_o_went_on) = Some 0
   \<and> win_combination (game_state game_o_went_on) = Some [(0, 0), (0, 1), (0, 2)]
   \<and> win_player (fst (result 1 game_o_went_on)) = Some 1
   \<and> win_combination (fst (result 1 game_o_went_on)) = Some [(1, 0), (1, 1), (1, 2)]"
proof -
  have "reachable game_xo game_o_went_on"
    unfolding game_o_went_on_def
    by (rule call_step[OF reachable_game_x_won]) (simp add: game_x_won_def game_xo_def new_game_def)
  moreover have "code (game_state game_o_went_on) = WINNER"
    and "win_player (game_state game_o_went_on) = Some 0"
    and "win_combination (game_state game_o_went_on) = Some [(0, 0), (0, 1), (0, 2)]"
    and "win_player (fst (result 1 game_o_went_on)) = Some 1"
    and "win_combination (fst (result 1 game_o_went_on)) = Some [(1, 0), (1, 1), (1, 2)]"
    by code_simp+
  ultimately show ?thesis by simp
qed

text \<open>
  C1 as amended: once the code is terminal, every further call of \<open>result\<close> leaves it
  terminal (it never returns to IN_PROGRESS), and the call leaves the code, the winning
  player and the winning combination unchanged whenever the player has made fewer than
  \<open>COMBINATION\<close> steps, or the checker finds no combination for the player and the table
  still has a free cell, or the checker finds for the player the combination that the
  game state already records for that player. A code ALL_CELLS_USED stays
  ALL_CELLS_USED whenever the checker finds no combination for the player.
\<close>

theorem terminal_code_stays_terminal:
  "code (game_state g) \<noteq> IN_PROGRESS \<Longrightarrow>
     code (fst (result player g)) \<noteq> IN_PROGRESS
   \<and> (count_steps (player_objs g player) < COMBINATION (param (table g))
        \<longrightarrow> fst (result player g) = game_state g)
   \<and> ((get_win_comb player g = None \<or> get_win_comb player g = Some [])
        \<and> count_free_cells (table g) \<noteq> 0
        \<longrightarrow> fst (result player g) = game_state g)
   \<and> (get_win_comb player g = Some w \<and> w \<noteq> []
        \<and> game_state g = \<lparr>code = WINNER, win_player = Some player, win_combination = Some w\<rparr>
        \<longrightarrow> fst (result player g) = game_state g)
   \<and> ((get_win_comb player g = None \<or> get_win_comb player g = Some [])
        \<and> code (game_state g) = ALL_CELLS_USED
        \<longrightarrow> code (fst (result player g)) = ALL_CELLS_USED)"
  by (auto simp add: result_def Let_def set_winner_def set_draw_def get_draw_result_def
        split: option.split)

theorem terminal_code_stays_terminal_witness:
  "code (game_state game_x_won) \<noteq> IN_PROGRESS
   \<and> count_steps (player_objs game_x_won 1) < COMBINATION (param (table game_x_won))
   \<and> code (fst (result 1 game_x_won)) \<noteq> IN_PROGRESS
   \<and> fst (result 1 game_x_won) = game_state game_x_won
   \<and> code (game_state game_o_went_on) \<noteq> IN_PROGRESS
   \<and> code (fst (result 1 game_o_went_on)) \<noteq> IN_PROGRESS
   \<and> get_win_comb 0 game_x_won = Some [(0, 0), (0, 1), (0, 2)]
   \<and> fst (result 0 game_x_won) = game_state game_x_won"
proof -
  have h: "code (game_state game_x_won) \<noteq> IN_PROGRESS"
    and k: "count_steps (player_objs game_x_won 1) < COMBINATION (param (table game_x_won))"
    and h': "code (game_state game_o_went_on) \<noteq> IN_PROGRESS"
    and c: "get_win_comb 0 game_x_won = Some [(0, 0), (0, 1), (0, 2)]"
    and s: "game_state game_x_won =
        \<lparr>code = WINNER, win_player = Some 0, win_combination = Some [(0, 0), (0, 1), (0, 2)]\<rparr>"
    by code_simp+
  show ?thesis
    using h k h' c s terminal_code_stays_terminal[OF h, of 1]
      terminal_code_stays_terminal[OF h', of 1]
      terminal_code_stays_terminal[OF h, of 0 "[(0, 0), (0, 1), (0, 2)]"]
    by simp
qed

subsection \<open>C2: result when the player has made enough steps\<close>

text \<open>
  C2: in a call of \<open>result\<close> for a player with at least \<open>COMBINATION\<close> steps, if the
  checker returns a combination (a combination has \<open>COMBINATION \<ge> 1\<close> cells, so it is
  not empty) the game becomes WINNER through \<open>set_winner\<close> with that player and that
  combination; otherwise, if the table has no free cell, it becomes ALL_CELLS_USED
  through \<open>set_draw\<close>; otherwise the game state is unchanged; and in every case \<open>result\<close>
  returns the game state.
\<close>

theorem result_evaluates_when_gate_open:
  "COMBINATION (param (table g)) \<le> count_steps (player_objs g player) \<Longrightarrow>
     (get_win_comb player g = Some win_comb \<and> win_comb \<noteq> [] \<longrightarrow>
        snd (result player g) = set_winner player win_comb g
        \<and> fst (result player g) =
            \<lparr>code = WINNER, win_player = Some player, win_combination = Some win_comb\<rparr>)
   \<and> (get_win_comb player g = None \<and> count_free_cells (table g) = 0 \<longrightarrow>
        snd (result player g) = set_draw g
        \<and> code (fst (result player g)) = ALL_CELLS_USED)
   \<and> (get_win_comb player g = None \<and> count_free_cells (table g) \<noteq> 0 \<longrightarrow>
        snd (result player g) = g \<and> fst (result player g) = game_state g)
   \<and> fst (result player g) = game_state (snd (result player g))"
  by (simp add: result_def Let_def set_winner_def set_draw_def get_draw_result_def)

theorem result_evaluates_when_gate_open_witness:
  "COMBINATION (param (table game_x_placed)) \<le> count_steps (player_objs game_x_placed 0)
   \<and> get_win_comb 0 game_x_placed = Some [(0, 0), (0, 1), (0, 2)]
   \<and> fst (result 0 game_x_placed) =
        \<lparr>code = WINNER, win_player = Some 0, win_combination = Some [(0, 0), (0, 1), (0, 2)]\<rparr>
   \<and> COMBINATION (param (table game_draw_placed)) \<le> count_steps (player_objs game_draw_placed 0)
   \<and> get_win_comb 0 game_draw_placed = None
   \<and> count_free_cells (table game_draw_placed) = 0
   \<and> snd (result 0 game_draw_placed) = set_draw game_draw_placed
   \<and> code (fst (result 0 game_draw_placed)) = ALL_CELLS_USED
   \<and> COMBINATION (param (table game_draw_five)) \<le> count_steps (player_objs game_draw_five 0)
   \<and> get_win_comb 0 game_draw_five = None
   \<and> count_free_cells (table game_draw_five) \<noteq> 0
   \<and> snd (result 0 game_draw_five) = game_draw_five"
proof -
  have w: "COMBINATION (param (table game_x_placed)) \<le> count_steps (player_objs game_x_placed 0)"
    and w': "get_win_comb 0 game_x_placed = Some [(0, 0), (0, 1), (0, 2)]"
    by code_simp+
  have d: "COMBINATION (param (table game_draw_placed)) \<le> count_steps (player_objs game_draw_placed 0)"
    and d': "get_win_comb 0 game_draw_placed = None" "count_free_cells (table game_draw_placed) = 0"
    by code_simp+
  have n: "COMBINATION (param (table game_draw_five)) \<le> count_steps (player_objs game_draw_five 0)"
    and n': "get_win_comb 0 game_draw_five = None" "count_free_cells (table game_draw_five) \<noteq> 0"
    by code_simp+
  show ?thesis
    using w w' d d' n n'
      result_evaluates_when_gate_open[OF w, of "[(0, 0), (0, 1), (0, 2)]"]
      result_evaluates_when_gate_open[OF d, of "[]"]
      result_evaluates_when_gate_open[OF n, of "[]"]
    by (simp add: set_draw_def)
qed

subsection \<open>C3: result when the player has made fewer steps\<close>

text \<open>
  C3: in a call of \<open>result\<close> for a player with fewer than \<open>COMBINATION\<close> steps, neither
  the checker nor the free-cell count is consulted (whatever the checker and the grid
  are, the outcome is the same), the game state is left unchanged, and the unchanged
  game state is returned.
\<close>

theorem result_below_run_length:
  "count_steps (player_objs g player) < COMBINATION (param (table g)) \<Longrightarrow>
     result player g = (game_state g, g)
   \<and> (\<forall>ch f. fst (result player (g\<lparr>checker := ch, table := (table g)\<lparr>game_field := f\<rparr>\<rparr>))
              = game_state g)"
  by (simp add: result_def)

theorem result_below_run_length_witness:
  "count_steps (player_objs game_five_full 3) < COMBINATION (param (table game_five_full))
   \<and> count_free_cells (table game_five_full) = 0
   \<and> result 3 game_five_full = (game_state game_five_full, game_five_full)"
proof -
  have h: "count_steps (player_objs game_five_full 3) < COMBINATION (param (table game_five_full))"
    and k: "count_free_cells (table game_five_full) = 0"
    by code_simp+
  show ?thesis using h k result_below_run_length[OF h] by simp
qed

subsection \<open>C4: the gate of result\<close>

text \<open>
  C4 says that the gate on the step counter is a pure optimisation: for every game
  history, the variant of \<open>result\<close> without the gate behaves as \<open>result\<close> does. The gate
  also guards the draw check. Five players move in turn on the standard board, each
  through \<open>step_result\<close>; when the fourth player has placed the ninth symbol the board
  is full, no player has a line and no player has made three steps: \<open>result\<close> leaves
  the game IN_PROGRESS, the variant without the gate declares ALL_CELLS_USED. With two
  players, on the board of size 1 and run-length 1, \<open>X\<close> takes the only cell and wins;
  a call for \<open>O\<close>, who has made no step, leaves the game WINNER in \<open>result\<close> and makes
  it ALL_CELLS_USED in the variant without the gate.
\<close>

theorem gate_guards_draw_detection:
  "fresh game_five
   \<and> reachable game_five game_five_full
   \<and> code (game_state game_five_full) = IN_PROGRESS
   \<and> code (fst (result 3 game_five_full)) = IN_PROGRESS
   \<and> code (fst (result_unconditional 3 game_five_full)) = ALL_CELLS_USED
   \<and> result_unconditional 3 game_five_full \<noteq> result 3 game_five_full
   \<and> fresh game_single
   \<and> reachable game_single game_single_won
   \<and> code (fst (result 1 game_single_won)) = WINNER
   \<and> code (fst (result_unconditional 1 game_single_won)) = ALL_CELLS_USED"
proof -
  have "fresh game_five"
    unfolding game_five_def by (rule fresh_new_game_3x3) simp
  moreover have a: "code (fst (result 3 game_five_full)) = IN_PROGRESS"
    and b: "code (fst (result_unconditional 3 game_five_full)) = ALL_CELLS_USED"
    and "code (game_state game_five_full) = IN_PROGRESS"
    by code_simp+
  moreover from a b have "result_unconditional 3 game_five_full \<noteq> result 3 game_five_full"
    by auto
  moreover have "fresh game_single"
    unfolding game_single_def by (rule fresh_new_game_1x1) simp
  moreover have "code (fst (result 1 game_single_won)) = WINNER"
    and "code (fst (result_unconditional 1 game_single_won)) = ALL_CELLS_USED"
    by code_simp+
  ultimately show ?thesis
    using reachable_game_five_full reachable_game_single_won by simp
qed

text \<open>
  C4 as amended: in every history of a newly set up game (empty grid, combinations of
  \<open>COMBINATION\<close> distinct cells, participants with distinct symbols and no step made, a
  checker that honours its contract), the variant of \<open>result\<close> without the gate returns
  the same game state and makes the same transition as \<open>result\<close>, for every participant,
  whenever the table still has a free cell or the player has made at least
  \<open>COMBINATION\<close> steps. On a full table, for a player with fewer steps, the gate
  decides: \<open>result\<close> leaves the game state unchanged, the variant without the gate makes
  the transition to ALL_CELLS_USED through \<open>set_draw\<close>.
\<close>

theorem gate_is_optimisation_while_cells_free:
  assumes "fresh g0" and "reachable g0 g" and "player \<in> set (players g)"
  shows "(count_free_cells (table g) \<noteq> 0
            \<or> COMBINATION (param (table g)) \<le> count_steps (player_objs g player)
          \<longrightarrow> result_unconditional player g = result player g)
       \<and> (count_free_cells (table g) = 0
            \<and> count_steps (player_objs g player) < COMBINATION (param (table g))
          \<longrightarrow> result player g = (game_state g, g)
              \<and> snd (result_unconditional player g) = set_draw g
              \<and> code (fst (result_unconditional player g)) = ALL_CELLS_USED)"
proof (cases "COMBINATION (param (table g)) \<le> count_steps (player_objs g player)")
  case True
  then show ?thesis by (simp add: result_def result_unconditional_def)
next
  case False
  have c: "consistent g"
    using assms(1,2) by (simp add: reachable_consistent fresh_consistent)
  have "get_win_comb player g = None"
  proof (cases "get_win_comb player g")
    case (Some w)
    then show ?thesis using win_needs_steps[OF c assms(3)] False by simp
  qed simp
  then show ?thesis using False
    by (simp add: result_def result_unconditional_def get_draw_result_def set_draw_def)
qed

theorem gate_is_optimisation_while_cells_free_witness:
  "fresh game_xo \<and> reachable game_xo game_xo_four \<and> 1 \<in> set (players game_xo_four)
   \<and> count_free_cells (table game_xo_four) \<noteq> 0
   \<and> count_steps (player_objs game_xo_four 1) < COMBINATION (param (table game_xo_four))
   \<and> result_unconditional 1 game_xo_four = result 1 game_xo_four
   \<and> fresh game_five \<and> reachable game_five game_five_full
   \<and> 3 \<in> set (players game_five_full)
   \<and> count_free_cells (table game_five_full) = 0
   \<and> count_steps (player_objs game_five_full 3) < COMBINATION (param (table game_five_full))
   \<and> result 3 game_five_full = (game_state game_five_full, game_five_full)
   \<and> snd (result_unconditional 3 game_five_full) = set_draw game_five_full"
proof -
  have f: "fresh game_xo"
    unfolding game_xo_def by (rule fresh_new_game_3x3) simp
  have p: "1 \<in> set (players game_xo_four)"
    by (simp add: game_xo_four_def game_xo_def new_game_def)
  have k: "count_free_cells (table game_xo_four) \<noteq> 0"
    and l: "count_steps (player_objs game_xo_four 1) < COMBINATION (param (table game_xo_four))"
    by code_simp+
  have f5: "fresh game_five"
    unfolding game_five_def by (rule fresh_new_game_3x3) simp
  have p5: "3 \<in> set (players game_five_full)"
    by (simp add: game_five_full_def game_five_before_last_def game_five_def new_game_def)
  have k5: "count_free_cells (table game_five_full) = 0"
    and l5: "count_steps (player_objs game_five_full 3) < COMBINATION (param (table game_five_full))"
    by code_simp+
  show ?thesis
    using f reachable_game_xo_four p k l f5 reachable_game_five_full p5 k5 l5
      gate_is_optimisation_while_cells_free[OF f reachable_game_xo_four p]
      gate_is_optimisation_while_cells_free[OF f5 reachable_game_five_full p5]
    by simp
qed

subsection \<open>C5: InvalidMoveError propagates\<close>

text \<open>
  C5: when \<open>set_symbol_cell\<close> raises InvalidMoveError in a call of \<open>step\<close> or of
  \<open>step_result\<close>, that error is the outcome of the call; the game neither suppresses nor
  replaces it nor tries again: the call ends with the error and the state it started in.
\<close>

theorem invalid_move_propagates:
  "fst (set_symbol_cell index_row index_column (symbol (player_objs g player)) (table g)) = Inl e \<Longrightarrow>
     e = InvalidMoveError
   \<and> step index_row index_column player g = (Inl e, g)
   \<and> step_result index_row index_column player g = (Inl e, g)"
  by (simp add: step_result_def step_def set_symbol_cell_def split: if_splits)

theorem invalid_move_propagates_witness:
  "fst (set_symbol_cell 0 0 (symbol (player_objs game_x_won 1)) (table game_x_won))
     = Inl InvalidMoveError
   \<and> step_result 0 0 1 game_x_won = (Inl InvalidMoveError, game_x_won)
   \<and> fst (set_symbol_cell 3 (- 1) (symbol (player_objs game_x_won 1)) (table game_x_won))
     = Inl InvalidMoveError
   \<and> step 3 (- 1) 1 game_x_won = (Inl InvalidMoveError, game_x_won)"
proof -
  have h: "fst (set_symbol_cell 0 0 (symbol (player_objs game_x_won 1)) (table game_x_won))
             = Inl InvalidMoveError"
    and k: "fst (set_symbol_cell 3 (- 1) (symbol (player_objs game_x_won 1)) (table game_x_won))
             = Inl InvalidMoveError"
    by code_simp+
  show ?thesis
    using h k invalid_move_propagates[OF h] invalid_move_propagates[OF k] by simp
qed

subsection \<open>C6: step_result is step, then result\<close>

text \<open>
  C6: \<open>step_result\<close> is \<open>step\<close> followed by \<open>result\<close> for the same player, and returns
  what that call of \<open>result\<close> returns; \<open>step\<close> places the symbol of the player through
  \<open>set_symbol_cell\<close> and then adds one to the step counter of the player.
\<close>

theorem step_result_is_step_then_result:
  "step_result index_row index_column player g =
     (case step index_row index_column player g of
        (Inl e, g1) \<Rightarrow> (Inl e, g1)
      | (Inr u, g1) \<Rightarrow> (Inr (fst (result player g1)), snd (result player g1)))
   \<and> step index_row index_column player g =
     (case set_symbol_cell index_row index_column (symbol (player_objs g player)) (table g) of
        (Inl e, t) \<Rightarrow> (Inl e, g\<lparr>table := t\<rparr>)
      | (Inr u, t) \<Rightarrow>
          (Inr (), g\<lparr>table := t,
                     player_objs := (player_objs g)
                       (player := (player_objs g player)
                          \<lparr>count_steps := count_steps (player_objs g player) + 1\<rparr>)\<rparr>))"
  by (simp add: step_result_def step_def add_count_step_def split: prod.split sum.split)

theorem step_result_is_step_then_result_witness:
  "fst (step 0 2 0 game_xo_four) = Inr ()
   \<and> step_result 0 2 0 game_xo_four
       = (Inr (fst (result 0 game_x_placed)), snd (result 0 game_x_placed))
   \<and> count_steps (player_objs game_xo_four 0) = 2
   \<and> count_steps (player_objs game_x_placed 0) = 3"
proof -
  have h: "fst (step 0 2 0 game_xo_four) = Inr ()"
    and k: "count_steps (player_objs game_xo_four 0) = 2"
       "count_steps (player_objs game_x_placed 0) = 3"
    by code_simp+
  show ?thesis
    using h k step_result_is_step_then_result[of 0 2 0 game_xo_four]
    by (simp add: game_x_placed_def split: prod.splits sum.splits)
qed

subsection \<open>C7: the AI methods\<close>

text \<open>
  C7: \<open>ai_get_step\<close> returns what the \<open>get_step\<close> of the configured strategy returns for
  the symbol of the player, the current grid and the combinations of the table, and
  changes no state; \<open>ai_step_result\<close> computes \<open>ai_get_step\<close> once and then applies
  \<open>step_result\<close> at the returned row and column for that player.
\<close>

theorem ai_methods_delegate:
  "ai_get_step player g =
     ai g (symbol (player_objs g player)) (game_field (table g)) (combinations (table g))
   \<and> ai_step_result player g =
     (case ai_get_step player g of
        Inl e \<Rightarrow> (Inl e, g)
      | Inr i \<Rightarrow> step_result (fst i) (snd i) player g)"
  by (simp add: ai_get_step_def ai_step_result_def split: sum.split prod.split)

theorem ai_methods_delegate_witness:
  "ai_get_step 1 game_x_won = Inr (1, 2)
   \<and> ai_step_result 1 game_x_won = step_result 1 2 1 game_x_won
   \<and> ai_get_step 3 game_five_full = Inl NoMovesAvailableError
   \<and> ai_step_result 3 game_five_full = (Inl NoMovesAvailableError, game_five_full)"
proof -
  have h: "ai_get_step 1 game_x_won = Inr (1, 2)"
    and k: "ai_get_step 3 game_five_full = Inl NoMovesAvailableError"
    by code_simp+
  show ?thesis
    using h k ai_methods_delegate[of 1 game_x_won] ai_methods_delegate[of 3 game_five_full]
    by simp
qed

subsection \<open>C8: a failed step does not count\<close>

text \<open>
  C8: when \<open>set_symbol_cell\<close> raises in a call of \<open>step\<close>, the step counter of the player
  is not incremented: the call fails and leaves the Player objects as they were.
\<close>

theorem failed_step_keeps_count_steps:
  "fst (set_symbol_cell index_row index_column (symbol (player_objs g player)) (table g)) = Inl e \<Longrightarrow>
     fst (step index_row index_column player g) = Inl e
   \<and> count_steps (player_objs (snd (step index_row index_column player g)) player)
       = count_steps (player_objs g player)
   \<and> player_objs (snd (step index_row index_column player g)) = player_objs g"
  by (simp add: step_def set_symbol_cell_def split: if_splits)

theorem failed_step_keeps_count_steps_witness:
  "fst (set_symbol_cell 1 1 (symbol (player_objs game_xo_four 0)) (table game_xo_four))
     = Inl InvalidMoveError
   \<and> fst (step 1 1 0 game_xo_four) = Inl InvalidMoveError
   \<and> count_steps (player_objs game_xo_four 0) = 2
   \<and> count_steps (player_objs (snd (step 1 1 0 game_xo_four)) 0) = 2"
proof -
  have h: "fst (set_symbol_cell 1 1 (symbol (player_objs game_xo_four 0)) (table game_xo_four))
             = Inl InvalidMoveError"
    and k: "count_steps (player_objs game_xo_four 0) = 2"
    by code_simp+
  show ?thesis
    using h k failed_step_keeps_count_steps[OF h] by simp
qed

subsection \<open>C9: step does not consult the game state\<close>

text \<open>
  C9: in a game whose code is WINNER or ALL_CELLS_USED, a call of \<open>step\<close> at an
  in-bounds empty cell succeeds, places the symbol and adds one to the step counter of
  the player, exactly as it does whatever the game state is.
\<close>

theorem step_ignores_game_state:
  "code (game_state g) = WINNER \<or> code (game_state g) = ALL_CELLS_USED \<Longrightarrow>
   in_bounds (table g) index_row index_column \<Longrightarrow>
   cell_at (game_field (table g)) index_row index_column = Some None \<Longrightarrow>
     step index_row index_column player g =
       (Inr (), g\<lparr>table := (table g)\<lparr>game_field :=
                       put_cell (game_field (table g)) index_row index_column
                         (symbol (player_objs g player))\<rparr>,
                  player_objs := (player_objs g)
                       (player := (player_objs g player)
                          \<lparr>count_steps := count_steps (player_objs g player) + 1\<rparr>)\<rparr>)
   \<and> cell_at (game_field (table (snd (step index_row index_column player g))))
         index_row index_column = Some (Some (symbol (player_objs g player)))
   \<and> count_steps (player_objs (snd (step index_row index_column player g)) player)
       = count_steps (player_objs g player) + 1
   \<and> game_state (snd (step index_row index_column player g)) = game_state g
   \<and> (\<forall>s. step index_row index_column player (g\<lparr>game_state := s\<rparr>)
          = (fst (step index_row index_column player g),
             (snd (step index_row index_column player g))\<lparr>game_state := s\<rparr>))"
  by (simp add: step_succeeds cell_at_put_cell)

theorem step_ignores_game_state_witness:
  "code (game_state game_x_won) = WINNER
   \<and> in_bounds (table game_x_won) 1 2
   \<and> cell_at (game_field (table game_x_won)) 1 2 = Some None
   \<and> fst (step 1 2 1 game_x_won) = Inr ()
   \<and> cell_at (game_field (table (snd (step 1 2 1 game_x_won)))) 1 2 = Some (Some ''O'')
   \<and> count_steps (player_objs (snd (step 1 2 1 game_x_won)) 1) = 3
   \<and> game_state (snd (step 1 2 1 game_x_won)) = game_state game_x_won"
proof -
  have h: "code (game_state game_x_won) = WINNER \<or> code (game_state game_x_won) = ALL_CELLS_USED"
    and h': "code (game_state game_x_won) = WINNER"
    and b: "in_bounds (table game_x_won) 1 2"
    and e: "cell_at (game_field (table game_x_won)) 1 2 = Some None"
    and s: "symbol (player_objs game_x_won 1) = ''O''"
    and n: "count_steps (player_objs game_x_won 1) = 2"
    by code_simp+
  show ?thesis
    using h' b e s n step_ignores_game_state[OF h b e, of 1]
    by (simp add: cell_at_put_cell)
qed

subsection \<open>C10: result changes the game state only\<close>

text \<open>
  C10: a call of \<open>result\<close> leaves the table with its grid, the participants and the
  Player objects unchanged: the state after the call is the state before it with the
  game state replaced by the returned one.
\<close>

theorem result_changes_only_game_state:
  "snd (result player g) = g\<lparr>game_state := fst (result player g)\<rparr>
   \<and> table (snd (result player g)) = table g
   \<and> player_objs (snd (result player g)) = player_objs g
   \<and> players (snd (result player g)) = players g
   \<and> checker (snd (result player g)) = checker g
   \<and> ai (snd (result player g)) = ai g"
  by (simp add: result_def Let_def set_winner_def set_draw_def split: option.split)

theorem result_changes_only_game_state_witness:
  "code (fst (result 0 game_x_placed)) = WINNER
   \<and> code (game_state game_x_placed) = IN_PROGRESS
   \<and> table (snd (result 0 game_x_placed)) = table game_x_placed
   \<and> player_objs (snd (result 0 game_x_placed)) = player_objs game_x_placed"
proof -
  have h: "code (fst (result 0 game_x_placed)) = WINNER"
    and k: "code (game_state game_x_placed) = IN_PROGRESS"
    by code_simp+
  show ?thesis
    using h k result_changes_only_game_state[of 0 game_x_placed] by simp
qed

end
